theory Spec2Isabelle
  imports Complex_Main
begin

section \<open>Numbers, errors and time spans\<close>

text \<open>
  The library is TypeScript. A JavaScript \<^verbatim>\<open>number\<close> is modelled as a real number:
  the delays, factors and timestamps are taken to be finite, so \<^verbatim>\<open>NaN\<close> and the
  infinities are outside the model. The arithmetic is exact; where a property depends on
  the rounding of doubles, the function is given a second time with the rounding written
  out (\<open>getUpdatedDelay_rounded\<close>).

  \<^verbatim>\<open>TimeSpan\<close> wraps a number of milliseconds; its constructor throws on a negative
  argument, and \<^verbatim>\<open>valueOf\<close> returns the milliseconds, so that \<^verbatim>\<open><=\<close> on two time
  spans compares their milliseconds.
\<close>

datatype error = Error string

datatype TimeSpan = TimeSpan (totalMilliseconds: real)

definition fromMilliseconds :: "real \<Rightarrow> error + TimeSpan" where
  "fromMilliseconds milliseconds =
     (if milliseconds < 0 then Inl (Error ''Milliseconds cannot be negative'')
      else Inr (TimeSpan milliseconds))"

definition valueOf :: "TimeSpan \<Rightarrow> real" where
  "valueOf t = totalMilliseconds t"

text \<open>The values the constructor can return: a time span is never negative.\<close>

definition constructed :: "TimeSpan \<Rightarrow> bool" where
  "constructed t = (0 \<le> totalMilliseconds t)"

section \<open>ExponentialBackoff\<close>

text \<open>
  The options shared by the retry executor and the poller are one record, extended
  by each of the two option types of the source.
\<close>

record delayOptions =
  initialDelay :: TimeSpan
  maxDelay :: TimeSpan
  factor :: real

record ExponentialBackoffOptions = delayOptions +
  jitter :: "TimeSpan option"

text \<open>
  \<^verbatim>\<open>getUpdatedDelay\<close>. The argument \<open>random\<close> is the value that \<^verbatim>\<open>Math.random()\<close>
  returns in this call, a number of \<open>[0, 1)\<close>; it is read only when a jitter is set (any
  \<^verbatim>\<open>TimeSpan\<close> object is truthy, also one of zero milliseconds). The result passes through
  the constructor of \<^verbatim>\<open>TimeSpan\<close>, which throws when the new delay is negative.
\<close>

definition getUpdatedDelay ::
  "ExponentialBackoffOptions \<Rightarrow> real \<Rightarrow> TimeSpan \<Rightarrow> error + TimeSpan" where
  "getUpdatedDelay options random currentDelay =
     (let jitter = (case jitter options of
                      Some j \<Rightarrow> random * totalMilliseconds j
                    | None \<Rightarrow> 0);
          newDelay = totalMilliseconds currentDelay * factor options + jitter
      in fromMilliseconds newDelay)"

text \<open>
  The same function on doubles. \<open>fl\<close> is the rounding of a real number to a double:
  each product and each sum of the code is the rounded exact one. With the identity for
  \<open>fl\<close> this is \<open>getUpdatedDelay\<close>.
\<close>

definition getUpdatedDelay_rounded ::
  "(real \<Rightarrow> real) \<Rightarrow> ExponentialBackoffOptions \<Rightarrow> real \<Rightarrow> TimeSpan \<Rightarrow> error + TimeSpan" where
  "getUpdatedDelay_rounded fl options random currentDelay =
     (let jitter = (case jitter options of
                      Some j \<Rightarrow> fl (random * totalMilliseconds j)
                    | None \<Rightarrow> 0);
          newDelay = fl (fl (totalMilliseconds currentDelay * factor options) + jitter)
      in fromMilliseconds newDelay)"

text \<open>
  What is used of the rounding: it keeps the order, it leaves a double as it is, and 0
  is a double. Rounding to the nearest double is such a function as long as the result
  is finite.
\<close>

definition rounding :: "(real \<Rightarrow> real) \<Rightarrow> bool" where
  "rounding fl = ((\<forall>x y. x \<le> y \<longrightarrow> fl x \<le> fl y) \<and> (\<forall>x. fl (fl x) = fl x) \<and> fl 0 = 0)"

text \<open>
  How the promise returned by \<^verbatim>\<open>execute\<close> ends. \<open>Rejected\<close> carries \<^verbatim>\<open>lastError\<close>,
  which is \<^verbatim>\<open>null\<close> (\<open>None\<close>) when no attempt was made. \<open>Abandoned\<close> is the case in which
  \<^verbatim>\<open>getUpdatedDelay\<close> throws inside the \<^verbatim>\<open>catch\<close> block: the asynchronous executor
  function ends with that error, and neither \<^verbatim>\<open>resolve\<close> nor \<^verbatim>\<open>reject\<close> is ever called.
\<close>

datatype ('e, 'r) settlement = Resolved 'r | Rejected "'e option" | Abandoned error

text \<open>
  What one run of \<^verbatim>\<open>execute\<close> has done: how the promise ended (\<open>None\<close> while the loop is
  still running), how often the operation was attempted, and the arguments of the calls of
  \<^verbatim>\<open>Wait\<close>, in order.
\<close>

record ('e, 'r) execution =
  outcome :: "('e, 'r) settlement option"
  attempts :: nat
  waits :: "TimeSpan list"

text \<open>
  The \<^verbatim>\<open>while\<close> loop of \<^verbatim>\<open>execute\<close>. The operation is given by the outcome of each of its
  calls: \<open>operation n\<close> is what the call number \<open>n\<close> (from 0) does, \<open>Inr\<close> its result or
  \<open>Inl\<close> the value it throws; \<open>random n\<close> is the draw of \<^verbatim>\<open>Math.random()\<close> after the failure
  of call \<open>n\<close>. The loop variables are \<open>n\<close> (calls made so far), \<^verbatim>\<open>lastError\<close>,
  \<^verbatim>\<open>currentDelay\<close> and the waits so far. \<^verbatim>\<open>attempt\<close> only wraps the call of the operation
  in a promise that settles as the operation does. The loop need not end (a factor of 1
  and an operation that always fails), so the first argument bounds the number of
  iterations: with none left the run is reported as it stands, its outcome \<open>None\<close>.
\<close>

fun execute_loop ::
  "nat \<Rightarrow> ExponentialBackoffOptions \<Rightarrow> (nat \<Rightarrow> 'e + 'r) \<Rightarrow> (nat \<Rightarrow> real) \<Rightarrow>
   nat \<Rightarrow> 'e option \<Rightarrow> TimeSpan \<Rightarrow> TimeSpan list \<Rightarrow> ('e, 'r) execution" where
  "execute_loop 0 options operation random n lastError currentDelay ws =
     \<lparr>outcome = None, attempts = n, waits = ws\<rparr>"
| "execute_loop (Suc fuel) options operation random n lastError currentDelay ws =
     (if valueOf currentDelay \<le> valueOf (maxDelay options) then
        (case operation n of
           Inr result \<Rightarrow> \<lparr>outcome = Some (Resolved result), attempts = Suc n, waits = ws\<rparr>
         | Inl err \<Rightarrow>
             (case getUpdatedDelay options (random n) currentDelay of
                Inl thrown \<Rightarrow>
                  \<lparr>outcome = Some (Abandoned thrown), attempts = Suc n,
                   waits = ws @ [currentDelay]\<rparr>
              | Inr updated \<Rightarrow>
                  execute_loop fuel options operation random (Suc n) (Some err) updated
                    (ws @ [currentDelay])))
      else \<lparr>outcome = Some (Rejected lastError), attempts = n, waits = ws\<rparr>)"

definition execute ::
  "nat \<Rightarrow> ExponentialBackoffOptions \<Rightarrow> (nat \<Rightarrow> 'e + 'r) \<Rightarrow> (nat \<Rightarrow> real) \<Rightarrow>
   ('e, 'r) execution" where
  "execute fuel options operation random =
     execute_loop fuel options operation random 0 None (initialDelay options) []"

text \<open>
  The value of \<^verbatim>\<open>currentDelay\<close> at the head of the loop before attempt \<open>k\<close>, when every
  earlier attempt has failed: \<^verbatim>\<open>getUpdatedDelay\<close> iterated from \<^verbatim>\<open>initialDelay\<close>.
\<close>

fun delayBefore ::
  "ExponentialBackoffOptions \<Rightarrow> (nat \<Rightarrow> real) \<Rightarrow> nat \<Rightarrow> error + TimeSpan" where
  "delayBefore options random 0 = Inr (initialDelay options)"
| "delayBefore options random (Suc k) =
     (case delayBefore options random k of
        Inl thrown \<Rightarrow> Inl thrown
      | Inr d \<Rightarrow> getUpdatedDelay options (random k) d)"

section \<open>AdaptivePoller\<close>

text \<open>
  The options of the poller. The logger is optional; only its presence matters here, so
  its type is a parameter.
\<close>

record 'l pollerOptions = delayOptions +
  resetPeriod :: TimeSpan
  linearStep :: TimeSpan
  logger :: "'l option"

definition defaultOptions :: "'l pollerOptions" where
  "defaultOptions =
     \<lparr>initialDelay = TimeSpan 1000, maxDelay = TimeSpan 60000, factor = 3 / 2,
      resetPeriod = TimeSpan 300000, linearStep = TimeSpan 1000, logger = None\<rparr>"

text \<open>
  What a method of the poller does to the outside, in order: the calls of the operation
  and of the two callbacks (each with the function called, \<open>'f\<close> the type of function
  references), the timers set and cleared, the calls of the logger, and the rejection
  of the promise of \<^verbatim>\<open>runPoll\<close>, which no caller handles.
\<close>

datatype 'f effect =
    Call_operation 'f
  | Call_onError 'f error
  | Call_onFail 'f error
  | SetTimeout real
  | ClearTimeout
  | Log_info string
  | Log_warning string
  | Unhandled_rejection error

fun is_callback :: "'f effect \<Rightarrow> bool" where
  "is_callback (Call_onError f e) = True"
| "is_callback (Call_onFail f e) = True"
| "is_callback x = False"

text \<open>\<^verbatim>\<open>this.options.logger?.info(m)\<close> and \<^verbatim>\<open>this.options.logger?.warning(m)\<close>.\<close>

definition log_info :: "'l pollerOptions \<Rightarrow> string \<Rightarrow> 'f effect list" where
  "log_info opts m = (case logger opts of Some l \<Rightarrow> [Log_info m] | None \<Rightarrow> [])"

definition log_warning :: "'l pollerOptions \<Rightarrow> string \<Rightarrow> 'f effect list" where
  "log_warning opts m = (case logger opts of Some l \<Rightarrow> [Log_warning m] | None \<Rightarrow> [])"

text \<open>
  A value thrown by the operation is an \<^verbatim>\<open>Error\<close>, or another value that
  \<^verbatim>\<open>JSON.stringify\<close> turns into a text, or a value on which \<^verbatim>\<open>JSON.stringify\<close> throws
  itself (a circular object, a \<^verbatim>\<open>BigInt\<close>, an object whose \<^verbatim>\<open>toJSON\<close> throws), given
  by what it throws. \<open>resultError\<close> is the constant of that name in \<^verbatim>\<open>runPoll\<close>,
  \<^verbatim>\<open>error instanceof Error ? error : new Error(JSON.stringify(error))\<close>: \<open>Inr\<close> its value,
  \<open>Inl\<close> what the expression throws.
\<close>

datatype thrown = Thrown_Error error | Thrown_other string | Thrown_unserialisable error

fun resultError :: "thrown \<Rightarrow> error + error" where
  "resultError (Thrown_Error e) = Inr e"
| "resultError (Thrown_other json) = Inr (Error json)"
| "resultError (Thrown_unserialisable t) = Inl t"

subsection \<open>The poller with a \<^verbatim>\<open>polling\<close> flag (\<^verbatim>\<open>src/threading/adaptive-poller.ts\<close>)\<close>

text \<open>
  The fields that every revision of the class has, and those of the revision that keeps
  a \<^verbatim>\<open>polling\<close> flag and schedules each cycle with \<^verbatim>\<open>setTimeout\<close>. \<open>currentTimeout\<close>
  stands for the timer handle: the delay of the timer set last.
\<close>

record ('f, 'l) pollerFields =
  options :: "'l pollerOptions"
  operation :: "'f option"
  onError :: "'f option"
  onFail :: "'f option"

record ('f, 'l) AdaptivePoller = "('f, 'l) pollerFields" +
  currentTimeout :: "real option"
  currentDelay :: real
  lastErrorTime :: "real option"
  polling :: bool

definition new_AdaptivePoller :: "'l pollerOptions \<Rightarrow> ('f, 'l) AdaptivePoller" where
  "new_AdaptivePoller opts =
     \<lparr>options = opts, operation = None, onError = None, onFail = None,
      currentTimeout = None, currentDelay = totalMilliseconds (initialDelay opts),
      lastErrorTime = None, polling = False\<rparr>"

definition isPolling :: "('f, 'l) AdaptivePoller \<Rightarrow> bool" where
  "isPolling s = polling s"

definition scheduleNextPoll ::
  "('f, 'l) AdaptivePoller \<Rightarrow> ('f, 'l) AdaptivePoller \<times> 'f effect list" where
  "scheduleNextPoll s =
     (s\<lparr>currentTimeout := Some (currentDelay s)\<rparr>, [SetTimeout (currentDelay s)])"

text \<open>
  \<^verbatim>\<open>runPoll\<close> is asynchronous: it runs up to \<^verbatim>\<open>await this.operation()\<close> and goes on when
  the operation has settled. \<open>runPoll_before_await\<close> is the first part: the guard, and
  the function it calls (\<open>None\<close> when the guard returns).
\<close>

definition runPoll_before_await :: "('f, 'l) AdaptivePoller \<Rightarrow> 'f option" where
  "runPoll_before_await s =
     (if \<not> polling s \<or> operation s = None then None else operation s)"

text \<open>
  The rest of the \<^verbatim>\<open>try\<close> block, run when the operation has succeeded; \<open>now\<close> is the
  value of \<^verbatim>\<open>Date.now()\<close>. \<^verbatim>\<open>!this.lastErrorTime\<close> holds for \<^verbatim>\<open>undefined\<close> and for 0.
\<close>

definition runPoll_try :: "('f, 'l) AdaptivePoller \<Rightarrow> real \<Rightarrow> ('f, 'l) AdaptivePoller" where
  "runPoll_try s now =
     (if (case lastErrorTime s of
            None \<Rightarrow> True
          | Some t \<Rightarrow> t = 0 \<or> now - t \<ge> totalMilliseconds (resetPeriod (options s)))
      then
        (let initialDelay = totalMilliseconds (initialDelay (options s));
             linearDifference = currentDelay s - totalMilliseconds (linearStep (options s))
         in s\<lparr>currentDelay := max initialDelay linearDifference\<rparr>)
      else s)"

text \<open>
  The \<^verbatim>\<open>catch\<close> block, run when the operation has thrown \<open>err\<close>, with the exception that
  leaves the block, if any. The time and the product are stored first; when
  \<open>resultError\<close> throws, the block ends there, before the comparison with \<^verbatim>\<open>maxDelay\<close>
  and before any callback. A callback is called through \<^verbatim>\<open>?.\<close>, that is only when
  \<^verbatim>\<open>start\<close> was given one. What a callback does itself is not part of the model.
\<close>

definition runPoll_catch ::
  "('f, 'l) AdaptivePoller \<Rightarrow> thrown \<Rightarrow> real \<Rightarrow>
   ('f, 'l) AdaptivePoller \<times> 'f effect list \<times> error option" where
  "runPoll_catch s err now =
     (let s1 = s\<lparr>lastErrorTime := Some now,
                 currentDelay := currentDelay s * factor (options s)\<rparr>
      in case resultError err of
           Inl t \<Rightarrow> (s1, [], Some t)
         | Inr e \<Rightarrow>
             if currentDelay s1 \<ge> totalMilliseconds (maxDelay (options s1)) then
               (s1\<lparr>currentDelay := totalMilliseconds (maxDelay (options s1))\<rparr>,
                (case onFail s1 of Some f \<Rightarrow> [Call_onFail f e] | None \<Rightarrow> []),
                None)
             else
               (s1,
                (case onError s1 of Some f \<Rightarrow> [Call_onError f e] | None \<Rightarrow> []),
                None))"

text \<open>
  The second part of \<^verbatim>\<open>runPoll\<close>: \<open>settled\<close> is how the operation ended, \<open>Inr ()\<close> when
  it succeeded and \<open>Inl\<close> the value thrown; then the \<^verbatim>\<open>finally\<close> block, which also runs
  when the \<^verbatim>\<open>catch\<close> block has thrown; that exception then rejects the promise of
  \<^verbatim>\<open>runPoll\<close>.
\<close>

definition runPoll_after_await ::
  "('f, 'l) AdaptivePoller \<Rightarrow> thrown + unit \<Rightarrow> real \<Rightarrow>
   ('f, 'l) AdaptivePoller \<times> 'f effect list" where
  "runPoll_after_await s settled now =
     (let (s1, es1, ex) = (case settled of
                             Inr u \<Rightarrow> (runPoll_try s now, [], None)
                           | Inl err \<Rightarrow> runPoll_catch s err now);
          (s2, es2) = scheduleNextPoll s1
      in (s2, es1 @ es2 @ (case ex of Some t \<Rightarrow> [Unhandled_rejection t] | None \<Rightarrow> [])))"

text \<open>One whole cycle, during which no other method of the poller is called.\<close>

definition runPoll ::
  "('f, 'l) AdaptivePoller \<Rightarrow> thrown + unit \<Rightarrow> real \<Rightarrow>
   ('f, 'l) AdaptivePoller \<times> 'f effect list" where
  "runPoll s settled now =
     (case runPoll_before_await s of
        None \<Rightarrow> (s, [])
      | Some f \<Rightarrow>
          (let (s1, es) = runPoll_after_await s settled now
           in (s1, Call_operation f # es)))"

text \<open>
  \<^verbatim>\<open>start\<close> calls \<^verbatim>\<open>runPoll\<close>, which calls the operation. \<open>called\<close> is what that call
  does: \<open>None\<close> when it returns a promise, so that \<^verbatim>\<open>runPoll\<close> stops at its \<^verbatim>\<open>await\<close>
  and the cycle goes on (\<open>runPoll_after_await\<close>) after \<^verbatim>\<open>start\<close> has returned; \<open>Some\<close>
  the value it throws, with the value of \<^verbatim>\<open>Date.now()\<close>, when the operation throws before
  it returns a promise, so that the \<^verbatim>\<open>catch\<close> and the \<^verbatim>\<open>finally\<close> block run inside
  \<^verbatim>\<open>start\<close>, before the message is logged.
\<close>

definition start ::
  "('f, 'l) AdaptivePoller \<Rightarrow> 'f \<Rightarrow> 'f option \<Rightarrow> 'f option \<Rightarrow> (thrown \<times> real) option \<Rightarrow>
   ('f, 'l) AdaptivePoller \<times> 'f effect list" where
  "start s f onE onF called =
     (if polling s then (s, [])
      else
        (let s1 = s\<lparr>polling := True, operation := Some f, onError := onE, onFail := onF,
                    currentDelay := totalMilliseconds (initialDelay (options s))\<rparr>
         in case runPoll_before_await s1 of
              None \<Rightarrow> (s1, log_info (options s1) ''AdaptivePolling started'')
            | Some g \<Rightarrow>
                (case called of
                   None \<Rightarrow>
                     (s1, Call_operation g # log_info (options s1) ''AdaptivePolling started'')
                 | Some (err, now) \<Rightarrow>
                     (let (s2, es) = runPoll_after_await s1 (Inl err) now
                      in (s2, Call_operation g # es @
                              log_info (options s2) ''AdaptivePolling started'')))))"

definition stop :: "('f, 'l) AdaptivePoller \<Rightarrow> ('f, 'l) AdaptivePoller \<times> 'f effect list" where
  "stop s =
     (s\<lparr>polling := False\<rparr>,
      ClearTimeout # log_info (options s) ''AdaptivePolling stopped'')"

text \<open>
  What can happen to a poller: a call of \<^verbatim>\<open>start\<close> or \<^verbatim>\<open>stop\<close>, a timer that fires and
  calls \<^verbatim>\<open>runPoll\<close>, and an operation that settles, after which the cycle that awaited it
  goes on. \<open>run\<close> lets a list of them happen in order. Every list is allowed, also one
  in which a timer fires that was never set: the executions of the class are among them.
  An operation that throws before it returns a promise, in a cycle begun by a timer, is
  \<open>TimeoutFires\<close> followed at once by \<open>OperationSettles\<close>.
\<close>

datatype 'f action =
    Start 'f "'f option" "'f option" "(thrown \<times> real) option"
  | Stop
  | TimeoutFires
  | OperationSettles "thrown + unit" real

fun step ::
  "('f, 'l) AdaptivePoller \<Rightarrow> 'f action \<Rightarrow> ('f, 'l) AdaptivePoller \<times> 'f effect list" where
  "step s (Start f onE onF called) = start s f onE onF called"
| "step s Stop = stop s"
| "step s TimeoutFires =
     (s, (case runPoll_before_await s of Some g \<Rightarrow> [Call_operation g] | None \<Rightarrow> []))"
| "step s (OperationSettles settled now) = runPoll_after_await s settled now"

fun run ::
  "('f, 'l) AdaptivePoller \<Rightarrow> 'f action list \<Rightarrow> ('f, 'l) AdaptivePoller \<times> 'f effect list" where
  "run s [] = (s, [])"
| "run s (a # as) =
     (let (s1, es1) = step s a; (s2, es2) = run s1 as in (s2, es1 @ es2))"

subsection \<open>The poller with a \<^verbatim>\<open>task\<close> promise\<close>

text \<open>
  The revision whose \<^verbatim>\<open>stop\<close> is asynchronous keeps the promise of \<^verbatim>\<open>runPoll\<close> in
  \<^verbatim>\<open>task\<close>, and \<^verbatim>\<open>isPolling\<close> is \<^verbatim>\<open>this.task !== undefined\<close>. A promise is modelled by
  its state when it is stored.
\<close>

datatype promise = Pending | Fulfilled

record ('f, 'l) TaskPoller = "('f, 'l) pollerFields" +
  task :: "promise option"

definition new_TaskPoller :: "'l pollerOptions \<Rightarrow> ('f, 'l) TaskPoller" where
  "new_TaskPoller opts =
     \<lparr>options = opts, operation = None, onError = None, onFail = None, task = None\<rparr>"

definition task_isPolling :: "('f, 'l) TaskPoller \<Rightarrow> bool" where
  "task_isPolling s = (task s \<noteq> None)"

text \<open>\<^verbatim>\<open>stop\<close> up to its \<^verbatim>\<open>await\<close>; the message is logged after it.\<close>

definition task_stop_before_await :: "('f, 'l) TaskPoller \<Rightarrow> ('f, 'l) TaskPoller" where
  "task_stop_before_await s = (if \<not> task_isPolling s then s else s\<lparr>task := None\<rparr>)"

text \<open>
  \<^verbatim>\<open>runPoll\<close> up to its first \<^verbatim>\<open>await\<close>, with the state of the promise it returns: the
  guard logs, calls \<^verbatim>\<open>stop\<close> and returns; otherwise the loop is entered and the operation
  called.
\<close>

definition task_runPoll_before_await ::
  "('f, 'l) TaskPoller \<Rightarrow> ('f, 'l) TaskPoller \<times> 'f effect list \<times> promise" where
  "task_runPoll_before_await s =
     (case operation s of
        None \<Rightarrow>
          (task_stop_before_await s,
           log_warning (options s)
             ''AdaptivePolling runPoll called while not polling or operation is not set'',
           Fulfilled)
      | Some f \<Rightarrow>
          if \<not> task_isPolling s then
            (task_stop_before_await s,
             log_warning (options s)
               ''AdaptivePolling runPoll called while not polling or operation is not set'',
             Fulfilled)
          else (s, [Call_operation f], Pending))"

text \<open>
  \<^verbatim>\<open>start\<close>: the right-hand side of \<^verbatim>\<open>this.task = this.runPoll()\<close> runs before the
  assignment.
\<close>

definition task_start ::
  "('f, 'l) TaskPoller \<Rightarrow> 'f \<Rightarrow> 'f option \<Rightarrow> 'f option \<Rightarrow>
   ('f, 'l) TaskPoller \<times> 'f effect list" where
  "task_start s f onE onF =
     (if task_isPolling s then
        (s, log_warning (options s)
              ''AdaptivePolling is already running, stopping the previous task before starting a new one'')
      else
        (let s1 = s\<lparr>operation := Some f, onError := onE, onFail := onF\<rparr>;
             (s2, es, p) = task_runPoll_before_await s1
         in (s2\<lparr>task := Some p\<rparr>,
             es @ log_info (options s2) ''AdaptivePolling started'')))"

subsection \<open>Predicates of the properties\<close>

text \<open>The delay of a poller lies between the initial and the maximal delay of its options.\<close>

definition delayInRange :: "('f, 'l) AdaptivePoller \<Rightarrow> bool" where
  "delayInRange s =
     (totalMilliseconds (initialDelay (options s)) \<le> currentDelay s \<and>
      currentDelay s \<le> totalMilliseconds (maxDelay (options s)))"

text \<open>
  Options whose time spans were built by the constructor, with
  \<^verbatim>\<open>initialDelay <= maxDelay\<close> and a factor of at least 1.
\<close>

definition wellConfigured :: "'l pollerOptions \<Rightarrow> bool" where
  "wellConfigured opts =
     (constructed (initialDelay opts) \<and> constructed (linearStep opts) \<and>
      valueOf (initialDelay opts) \<le> valueOf (maxDelay opts) \<and> 1 \<le> factor opts)"

text \<open>An action that is not a call of \<^verbatim>\<open>start\<close>, and an effect that is a call of the operation.\<close>

fun is_Start :: "'f action \<Rightarrow> bool" where
  "is_Start (Start f onE onF called) = True"
| "is_Start a = False"

fun is_Call_operation :: "'f effect \<Rightarrow> bool" where
  "is_Call_operation (Call_operation f) = True"
| "is_Call_operation x = False"

text \<open>
  An action in which \<open>resultError\<close> does not throw: not the failure of an operation with
  a value that \<^verbatim>\<open>JSON.stringify\<close> cannot serialise.
\<close>

fun serialisable :: "'f action \<Rightarrow> bool" where
  "serialisable (Start f onE onF (Some (Thrown_unserialisable t, now))) = False"
| "serialisable (OperationSettles (Inl (Thrown_unserialisable t)) now) = False"
| "serialisable a = True"

section \<open>Properties of ExponentialBackoff\<close>

subsection \<open>The loop\<close>

text \<open>
  From a loop head reached after \<open>n\<close> failures, \<open>k\<close> more failures whose delays all
  pass the loop condition take the loop to the head before attempt \<open>n + k\<close>.
\<close>

lemma execute_loop_failures:
  assumes "\<And>i. i < k \<Longrightarrow> op (n + i) = Inl (errs (n + i))"
      and "\<And>i. i \<le> k \<Longrightarrow> delayBefore opts rnd (n + i) = Inr (ds (n + i))"
      and "\<And>i. i < k \<Longrightarrow> valueOf (ds (n + i)) \<le> valueOf (maxDelay opts)"
  shows "execute_loop (k + fuel) opts op rnd n lastError (ds n) ws =
         execute_loop fuel opts op rnd (n + k)
           (if k = 0 then lastError else Some (errs (n + k - 1))) (ds (n + k))
           (ws @ map ds [n..<n + k])"
  using assms
proof (induction k arbitrary: n lastError ws)
  case 0
  then show ?case by simp
next
  case (Suc k)
  have failed: "op n = Inl (errs n)"
    using Suc.prems(1) [of 0] by simp
  have within: "valueOf (ds n) \<le> valueOf (maxDelay opts)"
    using Suc.prems(3) [of 0] by simp
  have here: "delayBefore opts rnd n = Inr (ds n)"
    using Suc.prems(2) [of 0] by simp
  have next_delay: "delayBefore opts rnd (Suc n) = Inr (ds (Suc n))"
    using Suc.prems(2) [of 1] by simp
  have updated: "getUpdatedDelay opts (rnd n) (ds n) = Inr (ds (Suc n))"
    using here next_delay by simp
  have first: "execute_loop (Suc k + fuel) opts op rnd n lastError (ds n) ws =
        execute_loop (k + fuel) opts op rnd (Suc n) (Some (errs n)) (ds (Suc n)) (ws @ [ds n])"
    using failed within updated by simp
  have rest: "execute_loop (k + fuel) opts op rnd (Suc n) (Some (errs n)) (ds (Suc n))
          (ws @ [ds n]) =
        execute_loop fuel opts op rnd (Suc n + k)
          (if k = 0 then Some (errs n) else Some (errs (Suc n + k - 1))) (ds (Suc n + k))
          ((ws @ [ds n]) @ map ds [Suc n..<Suc n + k])"
  proof (rule Suc.IH)
    fix i assume "i < k"
    then show "op (Suc n + i) = Inl (errs (Suc n + i))"
      using Suc.prems(1) [of "Suc i"] by simp
  next
    fix i assume "i \<le> k"
    then show "delayBefore opts rnd (Suc n + i) = Inr (ds (Suc n + i))"
      using Suc.prems(2) [of "Suc i"] by simp
  next
    fix i assume "i < k"
    then show "valueOf (ds (Suc n + i)) \<le> valueOf (maxDelay opts)"
      using Suc.prems(3) [of "Suc i"] by simp
  qed
  have indices: "[n..<n + Suc k] = n # [Suc n..<Suc n + k]"
    by (simp add: upt_conv_Cons)
  show ?case
    unfolding first rest indices by (cases k) simp_all
qed

text \<open>The count of attempts only grows.\<close>

lemma attempts_execute_loop:
  "n \<le> attempts (execute_loop fuel opts op rnd n lastError d ws)"
proof (induction fuel arbitrary: n lastError d ws)
  case 0
  then show ?case by simp
next
  case (Suc fuel)
  show ?case
  proof (cases "valueOf d \<le> valueOf (maxDelay opts)")
    case False
    then show ?thesis by simp
  next
    case True
    show ?thesis
    proof (cases "op n")
      case (Inr r)
      with True show ?thesis by simp
    next
      case (Inl e)
      show ?thesis
      proof (cases "getUpdatedDelay opts (rnd n) d")
        case (Inl ex)
        with True \<open>op n = Inl e\<close> show ?thesis by simp
      next
        case (Inr updated)
        have "Suc n \<le> attempts (execute_loop fuel opts op rnd (Suc n) (Some e) updated
                 (ws @ [d]))"
          by (rule Suc.IH)
        with True \<open>op n = Inl e\<close> Inr show ?thesis by simp
      qed
    qed
  qed
qed

text \<open>A run that has ended is the same with any larger bound on the iterations.\<close>

lemma execute_loop_settled:
  "outcome (execute_loop fuel opts op rnd n lastError d ws) = Some x \<Longrightarrow>
   execute_loop (fuel + extra) opts op rnd n lastError d ws =
   execute_loop fuel opts op rnd n lastError d ws"
proof (induction fuel arbitrary: n lastError d ws)
  case 0
  then show ?case by simp
next
  case (Suc fuel)
  then show ?case
    by (auto split: if_splits sum.splits)
qed

lemma nat_le_3: "(i::nat) \<le> 3 \<longleftrightarrow> i = 0 \<or> i = 1 \<or> i = 2 \<or> i = 3"
  by auto

lemma nat_less_3: "(i::nat) < 3 \<longleftrightarrow> i = 0 \<or> i = 1 \<or> i = 2"
  by auto

subsection \<open>Claims on \<^verbatim>\<open>execute\<close> and \<^verbatim>\<open>getUpdatedDelay\<close>\<close>

text \<open>
  C3. An operation that fails on every attempt (\<open>op i = Inl (errs i)\<close>) is attempted while
  the delay at the head of the loop is at most \<^verbatim>\<open>maxDelay\<close>: when the delays before the
  attempts \<open>0, \<dots>, k - 1\<close> pass the loop condition and the delay updated after attempt
  \<open>k - 1\<close> exceeds \<^verbatim>\<open>maxDelay\<close>, the run ends after exactly \<open>k\<close> attempts, it has waited
  once after each of them, and the promise is rejected with the error of attempt \<open>k - 1\<close>,
  the last one recorded (with \<^verbatim>\<open>null\<close> when \<open>k = 0\<close>, where no attempt was made). Any bound
  of more than \<open>k\<close> iterations gives this run.
\<close>

theorem execute_rejects_when_delay_exceeds:
  assumes "\<forall>i. op i = Inl (errs i)"
      and "\<forall>i\<le>k. delayBefore opts rnd i = Inr (ds i)"
      and "\<forall>i<k. valueOf (ds i) \<le> valueOf (maxDelay opts)"
      and "valueOf (maxDelay opts) < valueOf (ds k)"
  shows "execute (Suc (k + fuel)) opts op rnd =
         \<lparr>outcome = Some (Rejected (if k = 0 then None else Some (errs (k - 1)))),
          attempts = k, waits = map ds [0..<k]\<rparr>"
proof -
  have initial: "initialDelay opts = ds 0"
    using assms(2) [rule_format, of 0] by simp
  have "execute_loop (k + Suc fuel) opts op rnd 0 None (ds 0) [] =
        execute_loop (Suc fuel) opts op rnd (0 + k)
          (if k = 0 then None else Some (errs (0 + k - 1))) (ds (0 + k))
          ([] @ map ds [0..<0 + k])"
    by (rule execute_loop_failures) (use assms in simp_all)
  then show ?thesis
    using assms(4) initial by (simp add: execute_def)
qed

theorem execute_rejects_when_delay_exceeds_witness:
  "execute 4 \<lparr>initialDelay = TimeSpan 1000, maxDelay = TimeSpan 5000, factor = 2, jitter = None\<rparr>
     (\<lambda>i. Inl i :: nat + unit) (\<lambda>i. 0) =
   \<lparr>outcome = Some (Rejected (Some 2)), attempts = 3,
    waits = [TimeSpan 1000, TimeSpan 2000, TimeSpan 4000]\<rparr>"
proof -
  let ?o = "\<lparr>initialDelay = TimeSpan 1000, maxDelay = TimeSpan 5000, factor = 2, jitter = None\<rparr>"
  let ?ds = "\<lambda>i::nat. TimeSpan (1000 * 2 ^ i)"
  have d0: "delayBefore ?o (\<lambda>i. 0) 0 = Inr (?ds 0)"
    by simp
  have d1: "delayBefore ?o (\<lambda>i. 0) 1 = Inr (?ds 1)"
    by (simp add: getUpdatedDelay_def fromMilliseconds_def)
  have d2: "delayBefore ?o (\<lambda>i. 0) 2 = Inr (?ds 2)"
    by (simp add: eval_nat_numeral getUpdatedDelay_def fromMilliseconds_def)
  have d3: "delayBefore ?o (\<lambda>i. 0) 3 = Inr (?ds 3)"
    by (simp add: eval_nat_numeral getUpdatedDelay_def fromMilliseconds_def)
  have delays: "\<forall>i\<le>3. delayBefore ?o (\<lambda>i. 0) i = Inr (?ds i)"
    using d0 d1 d2 d3 by (auto simp: nat_le_3)
  have within: "\<forall>i<3. valueOf (?ds i) \<le> valueOf (maxDelay ?o)"
    by (auto simp: nat_less_3 valueOf_def)
  have exceeds: "valueOf (maxDelay ?o) < valueOf (?ds 3)"
    by (simp add: valueOf_def)
  have fails: "\<forall>i. (\<lambda>i. Inl i :: nat + unit) i = Inl ((\<lambda>i. i) i)"
    by simp
  have "[0..<3] = [0, 1, 2]"
    by (simp add: upt_rec)
  then show ?thesis
    using execute_rejects_when_delay_exceeds [OF fails delays within exceeds, of 0] by simp
qed

text \<open>
  C4. The loop condition \<^verbatim>\<open>currentDelay <= maxDelay\<close> is tested at the head of the loop,
  before each attempt and on the delay as it is then. At every head, with \<open>n\<close> attempts
  made and the delay \<open>d\<close>: when \<open>d\<close> passes the test, attempt \<open>n\<close> is made, a success
  resolves the promise, and a failure whose updated delay exceeds \<^verbatim>\<open>maxDelay\<close> is still
  waited for and ends the run only at the next head, with no further attempt; when \<open>d\<close>
  does not pass, no attempt is made and the promise is rejected with \<^verbatim>\<open>lastError\<close>. For
  the first head: with \<^verbatim>\<open>initialDelay <= maxDelay\<close>, equality included, the first attempt
  is made whatever the factor, the jitter and the operation are; with
  \<^verbatim>\<open>initialDelay > maxDelay\<close> none is made.
\<close>

theorem execute_first_attempt_runs:
  "(valueOf d \<le> valueOf (maxDelay opts) \<longrightarrow>
      Suc n \<le> attempts (execute_loop (Suc fuel) opts op rnd n lastError d ws) \<and>
      (\<forall>result. op n = Inr result \<longrightarrow>
         execute_loop (Suc fuel) opts op rnd n lastError d ws =
           \<lparr>outcome = Some (Resolved result), attempts = Suc n, waits = ws\<rparr>) \<and>
      (\<forall>err updated. op n = Inl err \<and> getUpdatedDelay opts (rnd n) d = Inr updated \<and>
           \<not> valueOf updated \<le> valueOf (maxDelay opts) \<longrightarrow>
         execute_loop (Suc (Suc fuel)) opts op rnd n lastError d ws =
           \<lparr>outcome = Some (Rejected (Some err)), attempts = Suc n, waits = ws @ [d]\<rparr>)) \<and>
   (\<not> valueOf d \<le> valueOf (maxDelay opts) \<longrightarrow>
      execute_loop (Suc fuel) opts op rnd n lastError d ws =
        \<lparr>outcome = Some (Rejected lastError), attempts = n, waits = ws\<rparr>) \<and>
   (valueOf (initialDelay opts) \<le> valueOf (maxDelay opts) \<longrightarrow>
      1 \<le> attempts (execute (Suc fuel) opts op rnd) \<and>
      (\<forall>result. op 0 = Inr result \<longrightarrow>
         execute (Suc fuel) opts op rnd =
           \<lparr>outcome = Some (Resolved result), attempts = 1, waits = []\<rparr>)) \<and>
   (\<not> valueOf (initialDelay opts) \<le> valueOf (maxDelay opts) \<longrightarrow>
      execute (Suc fuel) opts op rnd =
        \<lparr>outcome = Some (Rejected None), attempts = 0, waits = []\<rparr>)"
proof -
  have head: "Suc n \<le> attempts (execute_loop (Suc fuel) opts op rnd n lastError d ws)"
    if "valueOf d \<le> valueOf (maxDelay opts)" for n lastError d ws
  proof (cases "op n")
    case (Inr r)
    with that show ?thesis by simp
  next
    case (Inl e)
    show ?thesis
    proof (cases "getUpdatedDelay opts (rnd n) d")
      case (Inl ex)
      with that \<open>op n = Inl e\<close> show ?thesis by simp
    next
      case (Inr updated)
      have "Suc n \<le> attempts (execute_loop fuel opts op rnd (Suc n) (Some e) updated (ws @ [d]))"
        by (rule attempts_execute_loop)
      with that \<open>op n = Inl e\<close> Inr show ?thesis by simp
    qed
  qed
  have first: "1 \<le> attempts (execute (Suc fuel) opts op rnd)"
    if "valueOf (initialDelay opts) \<le> valueOf (maxDelay opts)"
    using head [OF that, of 0 None "[]"] by (simp add: execute_def)
  show ?thesis
    using head [of d n lastError ws] first
    by (auto simp: execute_def)
qed

text \<open>
  With \<^verbatim>\<open>initialDelay == maxDelay\<close> and a factor of 2 the first attempt is made, although
  the delay updated after it is above the maximum; with \<^verbatim>\<open>initialDelay > maxDelay\<close> no
  attempt is made.
\<close>

theorem execute_first_attempt_runs_witness:
  "valueOf (initialDelay
     \<lparr>initialDelay = TimeSpan 5000, maxDelay = TimeSpan 5000, factor = 2, jitter = None\<rparr>) \<le>
   valueOf (maxDelay
     \<lparr>initialDelay = TimeSpan 5000, maxDelay = TimeSpan 5000, factor = 2, jitter = None\<rparr>) \<and>
   1 \<le> attempts (execute 1
     \<lparr>initialDelay = TimeSpan 5000, maxDelay = TimeSpan 5000, factor = 2, jitter = None\<rparr>
     (\<lambda>i. Inl i :: nat + unit) (\<lambda>i. 0)) \<and>
   execute_loop 2
     \<lparr>initialDelay = TimeSpan 5000, maxDelay = TimeSpan 5000, factor = 2, jitter = None\<rparr>
     (\<lambda>i. Inl i :: nat + unit) (\<lambda>i. 0) 0 None (TimeSpan 5000) [] =
   \<lparr>outcome = Some (Rejected (Some 0)), attempts = 1, waits = [TimeSpan 5000]\<rparr> \<and>
   execute 1
     \<lparr>initialDelay = TimeSpan 6000, maxDelay = TimeSpan 5000, factor = 2, jitter = None\<rparr>
     (\<lambda>i. Inl i :: nat + unit) (\<lambda>i. 0) =
   \<lparr>outcome = Some (Rejected None), attempts = 0, waits = []\<rparr>"
proof -
  let ?o = "\<lparr>initialDelay = TimeSpan 5000, maxDelay = TimeSpan 5000, factor = 2, jitter = None\<rparr>"
  let ?p = "\<lparr>initialDelay = TimeSpan 6000, maxDelay = TimeSpan 5000, factor = 2, jitter = None\<rparr>"
  have equal: "valueOf (initialDelay ?o) \<le> valueOf (maxDelay ?o)"
    by (simp add: valueOf_def)
  have head: "valueOf (TimeSpan 5000) \<le> valueOf (maxDelay ?o)"
    by (simp add: valueOf_def)
  have updated: "getUpdatedDelay ?o 0 (TimeSpan 5000) = Inr (TimeSpan 10000)"
    by (simp add: getUpdatedDelay_def fromMilliseconds_def)
  have exceeds: "\<not> valueOf (TimeSpan 10000) \<le> valueOf (maxDelay ?o)"
    by (simp add: valueOf_def)
  have above: "\<not> valueOf (initialDelay ?p) \<le> valueOf (maxDelay ?p)"
    by (simp add: valueOf_def)
  have made: "1 \<le> attempts (execute 1 ?o (\<lambda>i. Inl i :: nat + unit) (\<lambda>i. 0))"
    using equal
      execute_first_attempt_runs [of "TimeSpan 5000" ?o 0 0 "\<lambda>i. Inl i :: nat + unit"
        "\<lambda>i. 0" None "[]"]
    by simp
  have ended: "execute_loop 2 ?o (\<lambda>i. Inl i :: nat + unit) (\<lambda>i. 0) 0 None (TimeSpan 5000) [] =
      \<lparr>outcome = Some (Rejected (Some 0)), attempts = 1, waits = [TimeSpan 5000]\<rparr>"
    using head updated exceeds
      execute_first_attempt_runs [of "TimeSpan 5000" ?o 0 0 "\<lambda>i. Inl i :: nat + unit"
        "\<lambda>i. 0" None "[]"]
    by (simp add: numeral_2_eq_2)
  have none: "execute 1 ?p (\<lambda>i. Inl i :: nat + unit) (\<lambda>i. 0) =
      \<lparr>outcome = Some (Rejected None), attempts = 0, waits = []\<rparr>"
    using above
      execute_first_attempt_runs [of "TimeSpan 6000" ?p 0 0 "\<lambda>i. Inl i :: nat + unit"
        "\<lambda>i. 0" None "[]"]
    by simp
  show ?thesis
    using equal made ended none by simp
qed

text \<open>
  The half-open interval of C6 is empty for a jitter of zero milliseconds, which
  \<^verbatim>\<open>TimeSpan.zero()\<close> builds: the jitter is set, the draw is multiplied by 0, and the new
  delay is exactly \<open>1000 * 2\<close>, which is not below \<open>1000 * 2 + 0\<close>. All numbers of this
  run are doubles and nothing is rounded.
\<close>

theorem getUpdatedDelay_zero_jitter_counterexample:
  "getUpdatedDelay
     \<lparr>initialDelay = TimeSpan 1000, maxDelay = TimeSpan 5000, factor = 2,
      jitter = Some (TimeSpan 0)\<rparr> (1 / 2) (TimeSpan 1000) = Inr (TimeSpan 2000) \<and>
   \<not> (totalMilliseconds (TimeSpan 2000) <
        totalMilliseconds (TimeSpan 1000) * 2 + totalMilliseconds (TimeSpan 0))"
  by (simp add: getUpdatedDelay_def fromMilliseconds_def)

text \<open>
  C6, amended. For every current delay and every factor of at least 1, on doubles:
  without jitter the new delay is exactly the product of the current delay and the
  factor, as the code rounds it; with a jitter \<open>J\<close> and a draw \<open>r\<close> of \<open>[0, 1)\<close> it is
  the sum of that product and of \<open>r * J\<close>, each rounded, which is at least the product
  and at most the rounded sum of the product and \<open>J\<close>, and it is the product itself
  when \<open>J\<close> is zero. The upper bound is not strict: not for a jitter of zero, and not
  when the sum rounds up to it. In each case the constructor of \<^verbatim>\<open>TimeSpan\<close> does not
  throw. \<open>getUpdatedDelay\<close> is the case of exact arithmetic.
\<close>

theorem getUpdatedDelay_range:
  assumes "rounding fl" and "constructed d" and "1 \<le> factor opts"
  shows "(jitter opts = None \<longrightarrow>
            getUpdatedDelay_rounded fl opts r d =
              Inr (TimeSpan (fl (totalMilliseconds d * factor opts)))) \<and>
         (\<forall>J. jitter opts = Some J \<and> constructed J \<and>
              fl (totalMilliseconds J) = totalMilliseconds J \<and> 0 \<le> r \<and> r < 1 \<longrightarrow>
            getUpdatedDelay_rounded fl opts r d =
              Inr (TimeSpan (fl (fl (totalMilliseconds d * factor opts) +
                                 fl (r * totalMilliseconds J)))) \<and>
            fl (totalMilliseconds d * factor opts) \<le>
              fl (fl (totalMilliseconds d * factor opts) + fl (r * totalMilliseconds J)) \<and>
            fl (fl (totalMilliseconds d * factor opts) + fl (r * totalMilliseconds J)) \<le>
              fl (fl (totalMilliseconds d * factor opts) + totalMilliseconds J) \<and>
            (totalMilliseconds J = 0 \<longrightarrow>
               fl (fl (totalMilliseconds d * factor opts) + fl (r * totalMilliseconds J)) =
               fl (totalMilliseconds d * factor opts))) \<and>
         getUpdatedDelay opts r d = getUpdatedDelay_rounded (\<lambda>x. x) opts r d"
proof -
  let ?p = "fl (totalMilliseconds d * factor opts)"
  have mono: "\<And>x y. x \<le> y \<Longrightarrow> fl x \<le> fl y"
    and idem: "\<And>x. fl (fl x) = fl x" and zero: "fl 0 = 0"
    using assms(1) by (auto simp: rounding_def)
  have "0 \<le> totalMilliseconds d * factor opts"
    using assms(2,3) by (simp add: constructed_def)
  then have product: "0 \<le> ?p"
    using mono [of 0 "totalMilliseconds d * factor opts"] zero by simp
  have exact: "getUpdatedDelay opts r d = getUpdatedDelay_rounded (\<lambda>x. x) opts r d"
    by (simp add: getUpdatedDelay_def getUpdatedDelay_rounded_def)
  have plain: "getUpdatedDelay_rounded fl opts r d = Inr (TimeSpan ?p)"
    if "jitter opts = None"
    using that product by (simp add: getUpdatedDelay_rounded_def fromMilliseconds_def idem)
  have jittered:
    "getUpdatedDelay_rounded fl opts r d =
       Inr (TimeSpan (fl (?p + fl (r * totalMilliseconds J)))) \<and>
     ?p \<le> fl (?p + fl (r * totalMilliseconds J)) \<and>
     fl (?p + fl (r * totalMilliseconds J)) \<le> fl (?p + totalMilliseconds J) \<and>
     (totalMilliseconds J = 0 \<longrightarrow> fl (?p + fl (r * totalMilliseconds J)) = ?p)"
    if J: "jitter opts = Some J \<and> constructed J \<and>
           fl (totalMilliseconds J) = totalMilliseconds J \<and> 0 \<le> r \<and> r < 1" for J
  proof -
    have "0 \<le> r * totalMilliseconds J"
      using J by (simp add: constructed_def)
    then have added: "0 \<le> fl (r * totalMilliseconds J)"
      using mono [of 0 "r * totalMilliseconds J"] zero by simp
    have "r * totalMilliseconds J \<le> 1 * totalMilliseconds J"
      using J by (intro mult_right_mono) (simp_all add: constructed_def)
    then have below: "fl (r * totalMilliseconds J) \<le> totalMilliseconds J"
      using mono [of "r * totalMilliseconds J" "totalMilliseconds J"] J by simp
    have lower: "?p \<le> fl (?p + fl (r * totalMilliseconds J))"
      using mono [of ?p "?p + fl (r * totalMilliseconds J)"] added idem by simp
    have upper: "fl (?p + fl (r * totalMilliseconds J)) \<le> fl (?p + totalMilliseconds J)"
      using below by (intro mono) simp
    have "\<not> fl (?p + fl (r * totalMilliseconds J)) < 0"
      using lower product by linarith
    then have result: "getUpdatedDelay_rounded fl opts r d =
        Inr (TimeSpan (fl (?p + fl (r * totalMilliseconds J))))"
      using J by (simp add: getUpdatedDelay_rounded_def fromMilliseconds_def)
    have "fl (?p + fl (r * totalMilliseconds J)) = ?p" if "totalMilliseconds J = 0"
      using that zero idem by simp
    with result lower upper show ?thesis by blast
  qed
  show ?thesis
    using plain jittered exact by blast
qed

text \<open>
  A rounding that can be computed here, to whole milliseconds: with a delay of 1000, a
  factor of 2, a jitter of 100 and a draw of 0.999 the jitter term rounds to 100 and
  the new delay is 2100, the upper bound itself.
\<close>

theorem getUpdatedDelay_range_witness:
  "rounding (\<lambda>x. real_of_int (round x)) \<and> constructed (TimeSpan 1000) \<and>
   getUpdatedDelay_rounded (\<lambda>x. real_of_int (round x))
     \<lparr>initialDelay = TimeSpan 1000, maxDelay = TimeSpan 5000, factor = 2, jitter = None\<rparr>
     (999 / 1000) (TimeSpan 1000) = Inr (TimeSpan 2000) \<and>
   getUpdatedDelay_rounded (\<lambda>x. real_of_int (round x))
     \<lparr>initialDelay = TimeSpan 1000, maxDelay = TimeSpan 5000, factor = 2,
      jitter = Some (TimeSpan 100)\<rparr> (999 / 1000) (TimeSpan 1000) = Inr (TimeSpan 2100)"
proof -
  let ?fl = "\<lambda>x. real_of_int (round x)"
  let ?o = "\<lparr>initialDelay = TimeSpan 1000, maxDelay = TimeSpan 5000, factor = 2, jitter = None\<rparr>"
  let ?j = "\<lparr>initialDelay = TimeSpan 1000, maxDelay = TimeSpan 5000, factor = 2,
             jitter = Some (TimeSpan 100)\<rparr>"
  have fl: "rounding ?fl"
    by (simp add: rounding_def round_mono)
  have delay: "constructed (TimeSpan 1000)"
    by (simp add: constructed_def)
  have plain: "1 \<le> factor ?o"
    by simp
  have jittered: "1 \<le> factor ?j"
    by simp
  have span: "constructed (TimeSpan 100)"
      "?fl (totalMilliseconds (TimeSpan 100)) = totalMilliseconds (TimeSpan 100)"
    by (simp_all add: constructed_def)
  have r1: "round (2000 :: real) = 2000"
    by simp
  have r2: "round (999 / 10 :: real) = 100"
    by (simp add: round_def)
  have r3: "round (2100 :: real) = 2100"
    by simp
  show ?thesis
    using fl delay span getUpdatedDelay_range [OF fl delay plain, of "999 / 1000"]
      getUpdatedDelay_range [OF fl delay jittered, of "999 / 1000"]
    by (simp add: r1 r2 r3)
qed

text \<open>
  C8. When the attempts \<open>0, \<dots>, N - 2\<close> fail and attempt \<open>N - 1\<close> (the \<open>N\<close>th) succeeds, and
  the delay before each of these \<open>N\<close> attempts is at most \<^verbatim>\<open>maxDelay\<close>, the promise is
  resolved with the result of the \<open>N\<close>th attempt after exactly \<open>N\<close> attempts and \<open>N - 1\<close>
  calls of \<^verbatim>\<open>Wait\<close>, one after each failure with the delay of that attempt. Any bound of at
  least \<open>N\<close> iterations gives this run.
\<close>

theorem execute_resolves_on_Nth_attempt:
  assumes "0 < N"
      and "\<forall>i<N - 1. op i = Inl (errs i)"
      and "op (N - 1) = Inr result"
      and "\<forall>i<N. delayBefore opts rnd i = Inr (ds i) \<and>
                 valueOf (ds i) \<le> valueOf (maxDelay opts)"
  shows "execute (N + fuel) opts op rnd =
           \<lparr>outcome = Some (Resolved result), attempts = N, waits = map ds [0..<N - 1]\<rparr> \<and>
         length (waits (execute (N + fuel) opts op rnd)) = N - 1"
proof -
  obtain k where N: "N = Suc k"
    using assms(1) by (cases N) auto
  have initial: "initialDelay opts = ds 0"
    using assms(4) [rule_format, of 0] assms(1) by simp
  have "execute_loop (k + Suc fuel) opts op rnd 0 None (ds 0) [] =
        execute_loop (Suc fuel) opts op rnd (0 + k)
          (if k = 0 then None else Some (errs (0 + k - 1))) (ds (0 + k))
          ([] @ map ds [0..<0 + k])"
    by (rule execute_loop_failures) (use assms N in simp_all)
  moreover have "valueOf (ds k) \<le> valueOf (maxDelay opts)"
    using assms(4) N by simp
  moreover have "op k = Inr result"
    using assms(3) N by simp
  ultimately have "execute (N + fuel) opts op rnd =
      \<lparr>outcome = Some (Resolved result), attempts = N, waits = map ds [0..<N - 1]\<rparr>"
    using N initial by (simp add: execute_def)
  then show ?thesis by simp
qed

theorem execute_resolves_on_Nth_attempt_witness:
  "execute 3 \<lparr>initialDelay = TimeSpan 1000, maxDelay = TimeSpan 5000, factor = 2, jitter = None\<rparr>
     (\<lambda>i. if i < 2 then Inl i else Inr (7::nat)) (\<lambda>i. 0) =
   \<lparr>outcome = Some (Resolved 7), attempts = 3, waits = [TimeSpan 1000, TimeSpan 2000]\<rparr> \<and>
   length (waits (execute 3
     \<lparr>initialDelay = TimeSpan 1000, maxDelay = TimeSpan 5000, factor = 2, jitter = None\<rparr>
     (\<lambda>i. if i < 2 then Inl i else Inr (7::nat)) (\<lambda>i. 0))) = 2"
proof -
  let ?o = "\<lparr>initialDelay = TimeSpan 1000, maxDelay = TimeSpan 5000, factor = 2, jitter = None\<rparr>"
  let ?ds = "\<lambda>i::nat. TimeSpan (1000 * 2 ^ i)"
  let ?op = "\<lambda>i::nat. if i < 2 then Inl i else (Inr 7 :: nat + nat)"
  have positive: "0 < (3::nat)"
    by simp
  have fails: "\<forall>i<3 - 1. ?op i = Inl ((\<lambda>i. i) i)"
    by simp
  have succeeds: "?op (3 - 1) = Inr 7"
    by simp
  have d0: "delayBefore ?o (\<lambda>i. 0) 0 = Inr (?ds 0)"
    by simp
  have d1: "delayBefore ?o (\<lambda>i. 0) 1 = Inr (?ds 1)"
    by (simp add: getUpdatedDelay_def fromMilliseconds_def)
  have d2: "delayBefore ?o (\<lambda>i. 0) 2 = Inr (?ds 2)"
    by (simp add: eval_nat_numeral getUpdatedDelay_def fromMilliseconds_def)
  have delays: "\<forall>i<3. delayBefore ?o (\<lambda>i. 0) i = Inr (?ds i) \<and>
                      valueOf (?ds i) \<le> valueOf (maxDelay ?o)"
    using d0 d1 d2 by (auto simp: nat_less_3 valueOf_def)
  have "[0..<2] = [0, 1]"
    by (simp add: upt_rec)
  then show ?thesis
    using execute_resolves_on_Nth_attempt [OF positive fails succeeds delays, of 0] by simp
qed

section \<open>Properties of AdaptivePoller\<close>

subsection \<open>One cycle\<close>

lemmas poller_defs = new_AdaptivePoller_def start_def stop_def runPoll_def
  runPoll_before_await_def runPoll_after_await_def runPoll_catch_def runPoll_try_def
  scheduleNextPoll_def log_info_def Let_def

text \<open>
  A whole cycle of a running poller is the call of the operation and then the second
  part of \<^verbatim>\<open>runPoll\<close>. The cycle that \<^verbatim>\<open>start\<close> begins, and one during which \<^verbatim>\<open>stop\<close> is
  called, go on with that second part as well.
\<close>

lemma runPoll_whole_cycle:
  assumes "polling s" and "operation s = Some f"
  shows "runPoll s settled now =
           (fst (runPoll_after_await s settled now),
            Call_operation f # snd (runPoll_after_await s settled now))"
  using assms by (simp add: runPoll_def runPoll_before_await_def split_beta)

text \<open>The \<^verbatim>\<open>catch\<close> block when \<open>resultError\<close> has a value, and when it throws.\<close>

lemma runPoll_catch_built:
  assumes "resultError err = Inr e"
  shows "runPoll_catch s err now =
           (if currentDelay s * factor (options s) \<ge> totalMilliseconds (maxDelay (options s))
            then (s\<lparr>lastErrorTime := Some now,
                     currentDelay := totalMilliseconds (maxDelay (options s))\<rparr>,
                  (case onFail s of Some g \<Rightarrow> [Call_onFail g e] | None \<Rightarrow> []), None)
            else (s\<lparr>lastErrorTime := Some now,
                     currentDelay := currentDelay s * factor (options s)\<rparr>,
                  (case onError s of Some g \<Rightarrow> [Call_onError g e] | None \<Rightarrow> []), None))"
  using assms by (simp add: runPoll_catch_def Let_def)

lemma runPoll_catch_thrown:
  assumes "resultError err = Inl t"
  shows "runPoll_catch s err now =
           (s\<lparr>lastErrorTime := Some now,
               currentDelay := currentDelay s * factor (options s)\<rparr>, [], Some t)"
  using assms by (simp add: runPoll_catch_def Let_def)

lemma runPoll_after_await_succeeded:
  "runPoll_after_await s (Inr u) now =
     ((runPoll_try s now)\<lparr>currentTimeout := Some (currentDelay (runPoll_try s now))\<rparr>,
      [SetTimeout (currentDelay (runPoll_try s now))])"
  by (simp add: runPoll_after_await_def scheduleNextPoll_def)

lemma runPoll_after_await_failed:
  assumes "resultError err = Inr e"
  shows "runPoll_after_await s (Inl err) now =
     ((fst (runPoll_catch s err now))
        \<lparr>currentTimeout := Some (currentDelay (fst (runPoll_catch s err now)))\<rparr>,
      fst (snd (runPoll_catch s err now)) @
        [SetTimeout (currentDelay (fst (runPoll_catch s err now)))])"
  unfolding runPoll_catch_built [OF assms]
  by (simp add: runPoll_after_await_def scheduleNextPoll_def runPoll_catch_built [OF assms])

text \<open>
  \<^verbatim>\<open>start\<close> takes its callbacks as optional arguments. Started without them, a poller
  whose operation fails calls no callback at all in that cycle, where C1 says exactly one.
\<close>

theorem runPoll_failure_without_callbacks_counterexample:
  "filter is_callback (snd (runPoll
      (fst (start (new_AdaptivePoller
         \<lparr>initialDelay = TimeSpan 1000, maxDelay = TimeSpan 5000, factor = 2,
          resetPeriod = TimeSpan 0, linearStep = TimeSpan 200, logger = None :: unit option\<rparr>)
         ''poll'' None None None))
      (Inl (Thrown_other ''1'')) 10)) = []"
  by (simp add: poller_defs)

text \<open>
  C1, amended. In every cycle in which the operation fails with an \<^verbatim>\<open>Error\<close> or with a
  value that \<^verbatim>\<open>JSON.stringify\<close> serialises, \<^verbatim>\<open>currentDelay\<close> is multiplied by the factor,
  and clamped to \<^verbatim>\<open>maxDelay\<close> when the product meets or exceeds it. At most one callback
  is called: in the clamped case the fail callback and only it, if \<^verbatim>\<open>start\<close> was given
  one; otherwise the error callback and only it, if \<^verbatim>\<open>start\<close> was given one. Never
  both, and exactly one when both were given. This holds for the part of \<^verbatim>\<open>runPoll\<close>
  after the \<^verbatim>\<open>await\<close>, which every cycle runs, and so for a whole cycle of a running
  poller. Nothing is said here of a failure with a value on which \<^verbatim>\<open>JSON.stringify\<close>
  throws.
\<close>

theorem runPoll_failure_callbacks:
  assumes "resultError err = Inr e"
  shows "currentDelay (fst (runPoll_after_await s (Inl err) now)) =
     (if currentDelay s * factor (options s) \<ge> totalMilliseconds (maxDelay (options s))
      then totalMilliseconds (maxDelay (options s))
      else currentDelay s * factor (options s)) \<and>
   filter is_callback (snd (runPoll_after_await s (Inl err) now)) =
     (if currentDelay s * factor (options s) \<ge> totalMilliseconds (maxDelay (options s))
      then (case onFail s of Some g \<Rightarrow> [Call_onFail g e] | None \<Rightarrow> [])
      else (case onError s of Some g \<Rightarrow> [Call_onError g e] | None \<Rightarrow> [])) \<and>
   length (filter is_callback (snd (runPoll_after_await s (Inl err) now))) \<le> 1 \<and>
   (onError s \<noteq> None \<and> onFail s \<noteq> None \<longrightarrow>
      length (filter is_callback (snd (runPoll_after_await s (Inl err) now))) = 1) \<and>
   (polling s \<and> operation s = Some f \<longrightarrow>
      runPoll s (Inl err) now =
        (fst (runPoll_after_await s (Inl err) now),
         Call_operation f # snd (runPoll_after_await s (Inl err) now)))"
  unfolding runPoll_after_await_failed [OF assms] runPoll_catch_built [OF assms]
  by (auto simp: runPoll_whole_cycle runPoll_after_await_failed [OF assms]
      runPoll_catch_built [OF assms] split: option.splits)

theorem runPoll_failure_callbacks_witness:
  "resultError (Thrown_other ''1'') = Inr (Error ''1'') \<and>
   filter is_callback (snd (runPoll_after_await
      (fst (start (new_AdaptivePoller
         \<lparr>initialDelay = TimeSpan 1000, maxDelay = TimeSpan 5000, factor = 2,
          resetPeriod = TimeSpan 0, linearStep = TimeSpan 200, logger = None :: unit option\<rparr>)
         ''poll'' (Some ''onError'') (Some ''onFail'') None))
      (Inl (Thrown_other ''1'')) 10)) = [Call_onError ''onError'' (Error ''1'')] \<and>
   currentDelay (fst (runPoll_after_await
      (fst (start (new_AdaptivePoller
         \<lparr>initialDelay = TimeSpan 1000, maxDelay = TimeSpan 5000, factor = 2,
          resetPeriod = TimeSpan 0, linearStep = TimeSpan 200, logger = None :: unit option\<rparr>)
         ''poll'' (Some ''onError'') (Some ''onFail'') None))
      (Inl (Thrown_other ''1'')) 10)) = 2000"
proof -
  let ?o = "\<lparr>initialDelay = TimeSpan 1000, maxDelay = TimeSpan 5000, factor = 2,
             resetPeriod = TimeSpan 0, linearStep = TimeSpan 200, logger = None :: unit option\<rparr>"
  let ?s = "fst (start (new_AdaptivePoller ?o) ''poll'' (Some ''onError'') (Some ''onFail'') None)"
  have built: "resultError (Thrown_other ''1'') = Inr (Error ''1'')"
    by simp
  have fields: "currentDelay ?s = 1000" "options ?s = ?o"
      "onError ?s = Some ''onError''" "onFail ?s = Some ''onFail''"
    by (simp_all add: start_def new_AdaptivePoller_def runPoll_before_await_def Let_def)
  show ?thesis
    using runPoll_failure_callbacks [OF built, of ?s 10 "''poll''"]
    by (simp add: fields)
qed

text \<open>
  The code tests \<^verbatim>\<open>!this.lastErrorTime\<close>, which also holds for a failure recorded when
  \<^verbatim>\<open>Date.now()\<close> was 0. After such a failure, a success at time 5 lowers the delay from
  2000 to 1800 although the reset period of 1000 has not passed, where C7 says that the
  delay is unchanged.
\<close>

theorem success_after_failure_at_time_zero_counterexample:
  "currentDelay (fst (run
      (new_AdaptivePoller
         \<lparr>initialDelay = TimeSpan 1000, maxDelay = TimeSpan 5000, factor = 2,
          resetPeriod = TimeSpan 1000, linearStep = TimeSpan 200, logger = None :: unit option\<rparr>)
      [Start ''poll'' None None None,
       OperationSettles (Inl (Thrown_other ''1'')) 0, TimeoutFires])) = 2000 \<and>
   currentDelay (fst (run
      (new_AdaptivePoller
         \<lparr>initialDelay = TimeSpan 1000, maxDelay = TimeSpan 5000, factor = 2,
          resetPeriod = TimeSpan 1000, linearStep = TimeSpan 200, logger = None :: unit option\<rparr>)
      [Start ''poll'' None None None,
       OperationSettles (Inl (Thrown_other ''1'')) 0, TimeoutFires,
       OperationSettles (Inr ()) 5])) = 1800"
  by (simp add: poller_defs)

text \<open>
  C7, amended. In every cycle in which the operation succeeds: when no time of a failure
  is recorded, which for the code is a \<^verbatim>\<open>lastErrorTime\<close> that is \<^verbatim>\<open>undefined\<close> or 0, or
  when at least \<^verbatim>\<open>resetPeriod\<close> has passed since the last failure, \<^verbatim>\<open>currentDelay\<close> becomes
  the maximum of the initial delay and \<^verbatim>\<open>currentDelay\<close> minus \<^verbatim>\<open>linearStep\<close>; otherwise it
  stays as it is. As for C1, this is the part of \<^verbatim>\<open>runPoll\<close> after the \<^verbatim>\<open>await\<close>, and so
  a whole cycle of a running poller.
\<close>

theorem runPoll_success_decay:
  "currentDelay (fst (runPoll_after_await s (Inr ()) now)) =
     (if (case lastErrorTime s of
            None \<Rightarrow> True
          | Some t \<Rightarrow> t = 0 \<or> totalMilliseconds (resetPeriod (options s)) \<le> now - t)
      then max (totalMilliseconds (initialDelay (options s)))
               (currentDelay s - totalMilliseconds (linearStep (options s)))
      else currentDelay s) \<and>
   (polling s \<and> operation s = Some f \<longrightarrow>
      runPoll s (Inr ()) now =
        (fst (runPoll_after_await s (Inr ()) now),
         Call_operation f # snd (runPoll_after_await s (Inr ()) now)))"
  unfolding runPoll_after_await_succeeded
  by (auto simp: runPoll_whole_cycle runPoll_after_await_succeeded runPoll_try_def Let_def
      split: option.splits)

text \<open>
  The scenario of C7: initial delay 1000, step 200, reset period 0, a delay of 1800 after
  a failure at time 10, and a success at time 20.
\<close>

theorem runPoll_success_decay_witness:
  "currentDelay (fst (runPoll
      \<lparr>options = \<lparr>initialDelay = TimeSpan 1000, maxDelay = TimeSpan 5000, factor = 2,
          resetPeriod = TimeSpan 0, linearStep = TimeSpan 200, logger = None :: unit option\<rparr>,
        operation = Some ''poll'', onError = None, onFail = None, currentTimeout = Some 1800,
        currentDelay = 1800, lastErrorTime = Some 10, polling = True\<rparr>
      (Inr ()) 20)) = 1600"
proof -
  let ?s = "\<lparr>options = \<lparr>initialDelay = TimeSpan 1000, maxDelay = TimeSpan 5000, factor = 2,
          resetPeriod = TimeSpan 0, linearStep = TimeSpan 200, logger = None :: unit option\<rparr>,
        operation = Some ''poll'', onError = None, onFail = None, currentTimeout = Some 1800,
        currentDelay = 1800, lastErrorTime = Some 10, polling = True\<rparr>"
  show ?thesis
    using runPoll_success_decay [of ?s 20 "''poll''"] by simp
qed

subsection \<open>Consecutive failures\<close>

text \<open>
  The scenario of C2 as it runs: \<^verbatim>\<open>start\<close> with both callbacks, then three cycles in which
  the operation throws. The delay is multiplied before it is compared, so the third
  failure already takes it to 8000 and the fail callback is called in that cycle, not
  first in the fourth.
\<close>

theorem fail_callback_on_third_failure_counterexample:
  "filter is_callback (snd (run
      (new_AdaptivePoller
         \<lparr>initialDelay = TimeSpan 1000, maxDelay = TimeSpan 5000, factor = 2,
          resetPeriod = TimeSpan 0, linearStep = TimeSpan 200, logger = None :: unit option\<rparr>)
      [Start ''poll'' (Some ''onError'') (Some ''onFail'') None,
       OperationSettles (Inl (Thrown_other ''1'')) 10, TimeoutFires,
       OperationSettles (Inl (Thrown_other ''2'')) 20, TimeoutFires,
       OperationSettles (Inl (Thrown_other ''3'')) 30]))
   = [Call_onError ''onError'' (Error ''1''), Call_onError ''onError'' (Error ''2''),
      Call_onFail ''onFail'' (Error ''3'')]"
  by (simp add: poller_defs)

text \<open>
  C2, amended. With an initial delay of 1000, a maximal delay of 5000 and a factor of 2,
  a poller started with both callbacks has a \<^verbatim>\<open>currentDelay\<close> of 1000, and after the first,
  second, third and fourth consecutive failure, each with an \<^verbatim>\<open>Error\<close> or a value that
  \<^verbatim>\<open>JSON.stringify\<close> serialises, one of 2000, 4000, 5000 and 5000. The error callback is
  called in the first and the second failure, the fail callback for the first time in
  the third, where the delay is clamped, and again in the fourth. The first cycle is the
  one that \<^verbatim>\<open>start\<close> has begun, the later ones are whole cycles; when the operation
  throws already in the call that \<^verbatim>\<open>start\<close> makes, the first failure is handled inside
  \<^verbatim>\<open>start\<close>, with the same state and the same callback.
\<close>

theorem consecutive_failures_scenario:
  assumes "resultError e1 = Inr r1" and "resultError e2 = Inr r2"
      and "resultError e3 = Inr r3" and "resultError e4 = Inr r4"
  shows
  "let opts = \<lparr>initialDelay = TimeSpan 1000, maxDelay = TimeSpan 5000, factor = 2,
               resetPeriod = rp, linearStep = ls, logger = lg\<rparr>;
       s0 = fst (start (new_AdaptivePoller opts) f (Some onE) (Some onF) None);
       c1 = runPoll_after_await s0 (Inl e1) n1;
       c2 = runPoll (fst c1) (Inl e2) n2;
       c3 = runPoll (fst c2) (Inl e3) n3;
       c4 = runPoll (fst c3) (Inl e4) n4;
       thrown_in_start = start (new_AdaptivePoller opts) f (Some onE) (Some onF) (Some (e1, n1))
   in [currentDelay s0, currentDelay (fst c1), currentDelay (fst c2), currentDelay (fst c3),
       currentDelay (fst c4)] = [1000, 2000, 4000, 5000, 5000] \<and>
      filter is_callback (snd c1) = [Call_onError onE r1] \<and>
      filter is_callback (snd c2) = [Call_onError onE r2] \<and>
      filter is_callback (snd c3) = [Call_onFail onF r3] \<and>
      filter is_callback (snd c4) = [Call_onFail onF r4] \<and>
      fst thrown_in_start = fst c1 \<and>
      filter is_callback (snd thrown_in_start) = [Call_onError onE r1]"
proof -
  let ?o = "\<lparr>initialDelay = TimeSpan 1000, maxDelay = TimeSpan 5000, factor = 2,
             resetPeriod = rp, linearStep = ls, logger = lg\<rparr>"
  let ?s = "\<lambda>t d l. \<lparr>options = ?o, operation = Some f, onError = Some onE, onFail = Some onF,
              currentTimeout = t, currentDelay = d, lastErrorTime = l, polling = True\<rparr>"
  have s0: "fst (start (new_AdaptivePoller ?o) f (Some onE) (Some onF) None) = ?s None 1000 None"
    by (simp add: start_def new_AdaptivePoller_def runPoll_before_await_def Let_def)
  have c1: "runPoll_after_await (?s None 1000 None) (Inl e1) n1 =
      (?s (Some 2000) 2000 (Some n1), [Call_onError onE r1, SetTimeout 2000])"
    using assms(1) by (simp add: poller_defs)
  have c2: "runPoll (?s (Some 2000) 2000 (Some n1)) (Inl e2) n2 =
      (?s (Some 4000) 4000 (Some n2), [Call_operation f, Call_onError onE r2, SetTimeout 4000])"
    using assms(2) by (simp add: poller_defs)
  have c3: "runPoll (?s (Some 4000) 4000 (Some n2)) (Inl e3) n3 =
      (?s (Some 5000) 5000 (Some n3), [Call_operation f, Call_onFail onF r3, SetTimeout 5000])"
    using assms(3) by (simp add: poller_defs)
  have c4: "runPoll (?s (Some 5000) 5000 (Some n3)) (Inl e4) n4 =
      (?s (Some 5000) 5000 (Some n4), [Call_operation f, Call_onFail onF r4, SetTimeout 5000])"
    using assms(4) by (simp add: poller_defs)
  have t: "start (new_AdaptivePoller ?o) f (Some onE) (Some onF) (Some (e1, n1)) =
      (?s (Some 2000) 2000 (Some n1),
       Call_operation f # [Call_onError onE r1, SetTimeout 2000] @
         log_info ?o ''AdaptivePolling started'')"
    using assms(1)
    by (simp add: new_AdaptivePoller_def start_def runPoll_before_await_def
        runPoll_after_await_def runPoll_catch_def scheduleNextPoll_def Let_def)
  show ?thesis
    unfolding Let_def s0 c1 fst_conv snd_conv c2 c3 c4 t
    by (simp add: log_info_def split: option.splits)
qed

theorem consecutive_failures_scenario_witness:
  "filter is_callback (snd (runPoll (fst (runPoll (fst (runPoll_after_await
      (fst (start (new_AdaptivePoller
         \<lparr>initialDelay = TimeSpan 1000, maxDelay = TimeSpan 5000, factor = 2,
          resetPeriod = TimeSpan 0, linearStep = TimeSpan 200, logger = None :: unit option\<rparr>)
         ''poll'' (Some ''onError'') (Some ''onFail'') None))
      (Inl (Thrown_other ''1'')) 10)) (Inl (Thrown_other ''2'')) 20))
      (Inl (Thrown_Error (Error ''3''))) 30))
   = [Call_onFail ''onFail'' (Error ''3'')]"
proof -
  have b1: "resultError (Thrown_other ''1'') = Inr (Error ''1'')" by simp
  have b2: "resultError (Thrown_other ''2'') = Inr (Error ''2'')" by simp
  have b3: "resultError (Thrown_Error (Error ''3'')) = Inr (Error ''3'')" by simp
  have b4: "resultError (Thrown_other ''4'') = Inr (Error ''4'')" by simp
  show ?thesis
    using consecutive_failures_scenario [OF b1 b2 b3 b4, of "TimeSpan 0" "TimeSpan 200"
      "None :: unit option" "''poll''" "''onError''" "''onFail''" 10 20 30 40]
    by (simp add: Let_def)
qed

subsection \<open>After \<^verbatim>\<open>stop\<close>\<close>

text \<open>
  \<^verbatim>\<open>stop\<close> of \<^verbatim>\<open>src/threading/adaptive-poller.ts\<close> is synchronous. Called while the
  operation is in flight, it has returned, and its message is logged, before the cycle
  goes on: the error callback and the next timer come after it, where C5 says that the
  completion of \<^verbatim>\<open>stop\<close> is observed only when the loop has come to rest.
\<close>

theorem cycle_finishes_after_stop_counterexample:
  "snd (run
      (new_AdaptivePoller
         \<lparr>initialDelay = TimeSpan 1000, maxDelay = TimeSpan 5000, factor = 2,
          resetPeriod = TimeSpan 0, linearStep = TimeSpan 200, logger = Some ()\<rparr>)
      [Start ''poll'' (Some ''onError'') (Some ''onFail'') None, Stop,
       OperationSettles (Inl (Thrown_other ''1'')) 10])
   = [Call_operation ''poll'', Log_info ''AdaptivePolling started'',
      ClearTimeout, Log_info ''AdaptivePolling stopped'',
      Call_onError ''onError'' (Error ''1''), SetTimeout 2000]"
  by (simp add: poller_defs)

text \<open>A poller that is not polling calls no operation until \<^verbatim>\<open>start\<close> is called.\<close>

lemma step_not_polling:
  assumes "\<not> polling s" and "\<not> is_Start a"
  shows "\<not> polling (fst (step s a)) \<and> filter is_Call_operation (snd (step s a)) = []"
proof (cases a)
  case (Start f onE onF called)
  with assms show ?thesis by simp
next
  case Stop
  then show ?thesis by (simp add: stop_def log_info_def split: option.splits)
next
  case TimeoutFires
  with assms show ?thesis by (simp add: runPoll_before_await_def)
next
  case (OperationSettles settled now)
  with assms show ?thesis
    by (auto simp: runPoll_after_await_def runPoll_try_def runPoll_catch_def
        scheduleNextPoll_def Let_def split: sum.splits option.splits)
qed

lemma run_not_polling:
  assumes "\<not> polling s" and "list_all (\<lambda>a. \<not> is_Start a) as"
  shows "\<not> polling (fst (run s as)) \<and> filter is_Call_operation (snd (run s as)) = []"
  using assms
proof (induction as arbitrary: s)
  case Nil
  then show ?case by simp
next
  case (Cons a as)
  have first: "\<not> polling (fst (step s a)) \<and> filter is_Call_operation (snd (step s a)) = []"
    using Cons.prems by (intro step_not_polling) simp_all
  then have "\<not> polling (fst (run (fst (step s a)) as)) \<and>
      filter is_Call_operation (snd (run (fst (step s a)) as)) = []"
    using Cons.prems(2) by (intro Cons.IH) simp_all
  with first show ?case by (simp add: split_beta)
qed

text \<open>The second part of \<^verbatim>\<open>runPoll\<close> does not read the \<^verbatim>\<open>polling\<close> flag.\<close>

lemma runPoll_after_await_stopped:
  "runPoll_after_await (s\<lparr>polling := False\<rparr>) settled now =
     ((fst (runPoll_after_await s settled now))\<lparr>polling := False\<rparr>,
      snd (runPoll_after_await s settled now))"
  by (auto simp: runPoll_after_await_def runPoll_try_def runPoll_catch_def
      scheduleNextPoll_def Let_def split: sum.splits option.splits)

text \<open>
  C5, amended. For the poller of \<^verbatim>\<open>src/threading/adaptive-poller.ts\<close>, whose \<^verbatim>\<open>stop\<close> is
  synchronous: after \<^verbatim>\<open>stop\<close> has returned no further cycle begins, that is, whatever
  happens next and in whatever order (timers that fire, operations that settle, further
  calls of \<^verbatim>\<open>stop\<close>), the operation is not called and the poller is not polling, as long
  as \<^verbatim>\<open>start\<close> is not called again; \<^verbatim>\<open>stop\<close> itself calls no operation. The cycle in
  flight is allowed to finish, and it finishes after \<^verbatim>\<open>stop\<close> has returned: when its
  operation settles, the rest of the cycle does to the delay, the callbacks and the timer
  exactly what it does without the \<^verbatim>\<open>stop\<close>.
\<close>

theorem stop_then_no_new_cycle:
  "(list_all (\<lambda>a. \<not> is_Start a) as \<longrightarrow>
      filter is_Call_operation (snd (run (fst (stop s)) as)) = [] \<and>
      \<not> polling (fst (run (fst (stop s)) as))) \<and>
   runPoll_after_await (fst (stop s)) settled now =
     ((fst (runPoll_after_await s settled now))\<lparr>polling := False\<rparr>,
      snd (runPoll_after_await s settled now)) \<and>
   filter is_Call_operation (snd (stop s)) = []"
proof -
  have stopped: "\<not> polling (fst (stop s))"
    by (simp add: stop_def)
  have "fst (stop s) = s\<lparr>polling := False\<rparr>"
    by (simp add: stop_def)
  then have rest: "runPoll_after_await (fst (stop s)) settled now =
     ((fst (runPoll_after_await s settled now))\<lparr>polling := False\<rparr>,
      snd (runPoll_after_await s settled now))"
    by (simp add: runPoll_after_await_stopped)
  have quiet: "filter is_Call_operation (snd (stop s)) = []"
    by (simp add: stop_def log_info_def split: option.splits)
  show ?thesis
    using run_not_polling [OF stopped, of as] rest quiet by simp
qed

theorem stop_then_no_new_cycle_witness:
  "filter is_Call_operation (snd (run
      (fst (stop (fst (start (new_AdaptivePoller
         \<lparr>initialDelay = TimeSpan 1000, maxDelay = TimeSpan 5000, factor = 2,
          resetPeriod = TimeSpan 0, linearStep = TimeSpan 200, logger = Some ()\<rparr>)
         ''poll'' (Some ''onError'') (Some ''onFail'') None))))
      [OperationSettles (Inl (Thrown_other ''1'')) 10, TimeoutFires, TimeoutFires])) = []"
proof -
  have later: "list_all (\<lambda>a. \<not> is_Start a)
      [OperationSettles (Inl (Thrown_other ''1'')) 10, TimeoutFires, TimeoutFires :: string action]"
    by simp
  show ?thesis
    using later stop_then_no_new_cycle [of
        "[OperationSettles (Inl (Thrown_other ''1'')) 10, TimeoutFires, TimeoutFires]"
        "fst (start (new_AdaptivePoller
         \<lparr>initialDelay = TimeSpan 1000, maxDelay = TimeSpan 5000, factor = 2,
          resetPeriod = TimeSpan 0, linearStep = TimeSpan 200, logger = Some ()\<rparr>)
         ''poll'' (Some ''onError'') (Some ''onFail'') None)" "Inr ()" 0]
    by blast
qed

subsection \<open>The range of the delay\<close>

text \<open>
  As long as \<open>resultError\<close> does not throw, the delay of a well configured poller
  stays between the initial and the maximal delay, whatever happens and in whatever
  order; and \<^verbatim>\<open>start\<close> on a poller that is not polling sets it to the initial delay.
\<close>

lemma options_runPoll_try: "options (runPoll_try s now) = options s"
  by (simp add: runPoll_try_def Let_def)

lemma delayInRange_runPoll_try:
  assumes "wellConfigured (options s)" and "delayInRange s"
  shows "delayInRange (runPoll_try s now)"
  using assms
  by (auto simp: runPoll_try_def Let_def delayInRange_def wellConfigured_def constructed_def
      valueOf_def)

lemma delayInRange_runPoll_catch:
  assumes "wellConfigured (options s)" and "delayInRange s" and "resultError err = Inr e"
  shows "delayInRange (fst (runPoll_catch s err now)) \<and>
         options (fst (runPoll_catch s err now)) = options s"
proof -
  have "0 \<le> currentDelay s" and "1 \<le> factor (options s)"
    using assms by (auto simp: delayInRange_def wellConfigured_def constructed_def)
  then have "currentDelay s * 1 \<le> currentDelay s * factor (options s)"
    by (intro mult_left_mono) auto
  then show ?thesis
    using assms
    by (auto simp: runPoll_catch_built delayInRange_def wellConfigured_def valueOf_def)
qed

lemma delayInRange_after_success:
  assumes "wellConfigured (options s)" and "delayInRange s"
  shows "delayInRange (fst (runPoll_after_await s (Inr u) now)) \<and>
         options (fst (runPoll_after_await s (Inr u) now)) = options s"
  using delayInRange_runPoll_try [OF assms, of now]
  by (simp add: runPoll_after_await_succeeded options_runPoll_try delayInRange_def)

lemma delayInRange_after_failure:
  assumes "wellConfigured (options s)" and "delayInRange s" and "resultError err = Inr e"
  shows "delayInRange (fst (runPoll_after_await s (Inl err) now)) \<and>
         options (fst (runPoll_after_await s (Inl err) now)) = options s"
proof -
  have "delayInRange (fst (runPoll_catch s err now))"
    and same: "options (fst (runPoll_catch s err now)) = options s"
    using delayInRange_runPoll_catch [OF assms, of now] by simp_all
  then have "totalMilliseconds (initialDelay (options s)) \<le>
        currentDelay (fst (runPoll_catch s err now)) \<and>
      currentDelay (fst (runPoll_catch s err now)) \<le> totalMilliseconds (maxDelay (options s))"
    by (simp add: delayInRange_def)
  with same show ?thesis
    by (simp add: runPoll_after_await_failed [OF assms(3)] delayInRange_def)
qed

lemma step_preserves:
  assumes "wellConfigured (options s)" and "delayInRange s" and "serialisable a"
  shows "options (fst (step s a)) = options s \<and> delayInRange (fst (step s a))"
proof (cases a)
  case (Start f onE onF called)
  show ?thesis
  proof (cases "polling s")
    case True
    with Start assms show ?thesis by (simp add: start_def)
  next
    case False
    let ?s1 = "s\<lparr>polling := True, operation := Some f, onError := onE, onFail := onF,
                  currentDelay := totalMilliseconds (initialDelay (options s))\<rparr>"
    have s1: "wellConfigured (options ?s1)" "delayInRange ?s1" "options ?s1 = options s"
      using assms by (auto simp: delayInRange_def wellConfigured_def valueOf_def)
    show ?thesis
    proof (cases called)
      case None
      with Start False s1 show ?thesis
        by (simp add: start_def runPoll_before_await_def Let_def delayInRange_def)
    next
      case (Some thrown_at)
      obtain err now where thrown_at: "thrown_at = (err, now)"
        by (cases thrown_at)
      obtain e where built: "resultError err = Inr e"
        using assms(3) Start Some thrown_at by (cases err) auto
      from delayInRange_after_failure [OF s1(1,2) built, of now]
      show ?thesis
        using Start False Some thrown_at s1(3)
        by (simp add: start_def runPoll_before_await_def Let_def split_beta)
    qed
  qed
next
  case Stop
  with assms show ?thesis by (simp add: stop_def delayInRange_def)
next
  case TimeoutFires
  with assms show ?thesis by simp
next
  case (OperationSettles settled now)
  show ?thesis
  proof (cases settled)
    case (Inr u)
    with OperationSettles delayInRange_after_success [OF assms(1,2), of u now]
    show ?thesis by simp
  next
    case (Inl err)
    obtain e where built: "resultError err = Inr e"
      using assms(3) OperationSettles Inl by (cases err) auto
    from delayInRange_after_failure [OF assms(1,2) built, of now] OperationSettles Inl
    show ?thesis by simp
  qed
qed

lemma run_preserves:
  assumes "wellConfigured (options s)" and "delayInRange s" and "list_all serialisable as"
  shows "options (fst (run s as)) = options s \<and> delayInRange (fst (run s as))"
  using assms
proof (induction as arbitrary: s)
  case Nil
  then show ?case by simp
next
  case (Cons a as)
  have first: "options (fst (step s a)) = options s \<and> delayInRange (fst (step s a))"
    using Cons.prems by (intro step_preserves) simp_all
  then have "options (fst (run (fst (step s a)) as)) = options (fst (step s a)) \<and>
             delayInRange (fst (run (fst (step s a)) as))"
    using Cons.prems by (intro Cons.IH) simp_all
  with first show ?case by (simp add: split_beta)
qed

lemma currentDelay_in_range_serialisable:
  assumes "wellConfigured opts" and "list_all serialisable as"
  shows "delayInRange (fst (run (new_AdaptivePoller opts :: ('f, 'l) AdaptivePoller) as))"
proof -
  let ?s = "new_AdaptivePoller opts :: ('f, 'l) AdaptivePoller"
  have "wellConfigured (options ?s)"
    using assms by (simp add: new_AdaptivePoller_def)
  moreover have "delayInRange ?s"
    using assms by (simp add: delayInRange_def new_AdaptivePoller_def valueOf_def wellConfigured_def)
  ultimately show ?thesis
    using assms(2) run_preserves by blast
qed

lemma start_resets_currentDelay:
  assumes "\<not> polling s"
  shows "currentDelay (fst (start s f onE onF None)) =
           totalMilliseconds (initialDelay (options s))"
  using assms by (simp add: start_def runPoll_before_await_def Let_def)

text \<open>
  C10. The delay is meant to stay between \<^verbatim>\<open>initialDelay\<close> and \<^verbatim>\<open>maxDelay\<close>, and the
  \<^verbatim>\<open>catch\<close> block clamps it for that; but the block builds \<open>resultError\<close> between the
  multiplication and the clamp. An operation that fails three times with a value on
  which \<^verbatim>\<open>JSON.stringify\<close> throws (a circular object, a \<^verbatim>\<open>BigInt\<close>) takes the delay of
  a poller with the bounds 1000 and 5000 and the factor 2 to 8000, with no callback
  called, and a success after that to 7800.
\<close>

theorem unserialisable_failures_leave_delay_unclamped:
  "currentDelay (fst (run
      (new_AdaptivePoller
         \<lparr>initialDelay = TimeSpan 1000, maxDelay = TimeSpan 5000, factor = 2,
          resetPeriod = TimeSpan 0, linearStep = TimeSpan 200, logger = None :: unit option\<rparr>)
      [Start ''poll'' (Some ''onError'') (Some ''onFail'') None,
       OperationSettles (Inl (Thrown_unserialisable (Error ''TypeError''))) 10, TimeoutFires,
       OperationSettles (Inl (Thrown_unserialisable (Error ''TypeError''))) 20, TimeoutFires,
       OperationSettles (Inl (Thrown_unserialisable (Error ''TypeError''))) 30])) = 8000 \<and>
   currentDelay (fst (run
      (new_AdaptivePoller
         \<lparr>initialDelay = TimeSpan 1000, maxDelay = TimeSpan 5000, factor = 2,
          resetPeriod = TimeSpan 0, linearStep = TimeSpan 200, logger = None :: unit option\<rparr>)
      [Start ''poll'' (Some ''onError'') (Some ''onFail'') None,
       OperationSettles (Inl (Thrown_unserialisable (Error ''TypeError''))) 10, TimeoutFires,
       OperationSettles (Inl (Thrown_unserialisable (Error ''TypeError''))) 20, TimeoutFires,
       OperationSettles (Inl (Thrown_unserialisable (Error ''TypeError''))) 30, TimeoutFires,
       OperationSettles (Inr ()) 40])) = 7800 \<and>
   filter is_callback (snd (run
      (new_AdaptivePoller
         \<lparr>initialDelay = TimeSpan 1000, maxDelay = TimeSpan 5000, factor = 2,
          resetPeriod = TimeSpan 0, linearStep = TimeSpan 200, logger = None :: unit option\<rparr>)
      [Start ''poll'' (Some ''onError'') (Some ''onFail'') None,
       OperationSettles (Inl (Thrown_unserialisable (Error ''TypeError''))) 10, TimeoutFires,
       OperationSettles (Inl (Thrown_unserialisable (Error ''TypeError''))) 20, TimeoutFires,
       OperationSettles (Inl (Thrown_unserialisable (Error ''TypeError''))) 30])) = []"
  by (simp add: poller_defs)

theorem unserialisable_failures_leave_delay_unclamped_witness:
  "totalMilliseconds (maxDelay \<lparr>initialDelay = TimeSpan 1000, maxDelay = TimeSpan 5000, factor = 2,
          resetPeriod = TimeSpan 0, linearStep = TimeSpan 200, logger = None :: unit option\<rparr>) <
   currentDelay (fst (run
      (new_AdaptivePoller
         \<lparr>initialDelay = TimeSpan 1000, maxDelay = TimeSpan 5000, factor = 2,
          resetPeriod = TimeSpan 0, linearStep = TimeSpan 200, logger = None :: unit option\<rparr>)
      [Start ''poll'' (Some ''onError'') (Some ''onFail'') None,
       OperationSettles (Inl (Thrown_unserialisable (Error ''TypeError''))) 10, TimeoutFires,
       OperationSettles (Inl (Thrown_unserialisable (Error ''TypeError''))) 20, TimeoutFires,
       OperationSettles (Inl (Thrown_unserialisable (Error ''TypeError''))) 30]))"
  using unserialisable_failures_leave_delay_unclamped by simp

subsection \<open>A second \<^verbatim>\<open>start\<close>\<close>

text \<open>
  In \<^verbatim>\<open>src/threading/adaptive-poller.ts\<close> a call of \<^verbatim>\<open>start\<close> on a running poller returns
  at once: nothing is logged, here with a logger in the options, where C9 says that a
  warning is.
\<close>

theorem start_while_polling_logs_nothing_counterexample:
  "snd (start
     (fst (start (new_AdaptivePoller (defaultOptions\<lparr>logger := Some ()\<rparr>))
             ''poll'' None None None))
     ''other'' None None None) = []"
  by (simp add: start_def new_AdaptivePoller_def runPoll_before_await_def Let_def)

text \<open>
  C9, amended. A call of \<^verbatim>\<open>start\<close> on a running poller leaves every field of the poller
  as it is, the stored operation and \<^verbatim>\<open>currentDelay\<close> among them, calls no operation and
  sets no timer, and does not throw. In the revision with a \<^verbatim>\<open>polling\<close> flag it has no
  effect at all; in the revision with a \<^verbatim>\<open>task\<close> it calls \<^verbatim>\<open>warning\<close> of the logger, when
  the options have one, and has no other effect.
\<close>

theorem start_while_running:
  "(polling s \<longrightarrow> start s f onE onF called = (s, [])) \<and>
   (task_isPolling t \<longrightarrow>
      task_start t f onE onF =
        (t, (case logger (options t) of
               Some l \<Rightarrow>
                 [Log_warning ''AdaptivePolling is already running, stopping the previous task before starting a new one'']
             | None \<Rightarrow> [])))"
  by (simp add: start_def task_start_def log_warning_def)

theorem start_while_running_witness:
  "start
     (fst (start (new_AdaptivePoller (defaultOptions\<lparr>logger := Some ()\<rparr>))
             ''poll'' None None None))
     ''other'' (Some ''e'') (Some ''f'') None =
   (fst (start (new_AdaptivePoller (defaultOptions\<lparr>logger := Some ()\<rparr>))
           ''poll'' None None None),
    []) \<and>
   task_start
     (fst (task_start (new_TaskPoller (defaultOptions\<lparr>logger := Some ()\<rparr>)) ''poll'' None None))
     ''other'' (Some ''e'') (Some ''f'') =
   (fst (task_start (new_TaskPoller (defaultOptions\<lparr>logger := Some ()\<rparr>)) ''poll'' None None),
    [Log_warning ''AdaptivePolling is already running, stopping the previous task before starting a new one''])"
proof -
  let ?s = "fst (start (new_AdaptivePoller (defaultOptions\<lparr>logger := Some ()\<rparr>))
                  ''poll'' None None None)"
  let ?t = "fst (task_start (new_TaskPoller (defaultOptions\<lparr>logger := Some ()\<rparr>))
                  ''poll'' None None)"
  have flag: "polling ?s"
    by (simp add: start_def new_AdaptivePoller_def runPoll_before_await_def Let_def)
  have stored: "task_isPolling ?t"
    by (simp add: task_start_def new_TaskPoller_def task_isPolling_def
        task_runPoll_before_await_def task_stop_before_await_def)
  have present: "logger (options ?t) = Some ()"
    by (simp add: task_start_def new_TaskPoller_def task_isPolling_def
        task_runPoll_before_await_def task_stop_before_await_def defaultOptions_def)
  show ?thesis
    using flag stored present
      start_while_running [of ?s "''other''" "Some ''e''" "Some ''f''" None ?t]
    by simp
qed

subsection \<open>The first \<^verbatim>\<open>start\<close> of the revision with a \<^verbatim>\<open>task\<close>\<close>

text \<open>
  When no poll is running, \<^verbatim>\<open>start\<close> of this revision calls \<^verbatim>\<open>runPoll\<close> while \<^verbatim>\<open>task\<close> is
  still \<^verbatim>\<open>undefined\<close>: the guard of \<^verbatim>\<open>runPoll\<close> finds \<^verbatim>\<open>isPolling\<close> false, logs its warning
  and returns, and the operation is not called. The promise stored in \<^verbatim>\<open>task\<close> is already
  fulfilled.
\<close>

lemma task_start_calls_no_operation:
  assumes "\<not> task_isPolling t"
  shows "task_start t f onE onF =
           (t\<lparr>operation := Some f, onError := onE, onFail := onF, task := Some Fulfilled\<rparr>,
            log_warning (options t)
              ''AdaptivePolling runPoll called while not polling or operation is not set'' @
            log_info (options t) ''AdaptivePolling started'')"
  using assms
  by (simp add: task_start_def task_runPoll_before_await_def task_isPolling_def
      task_stop_before_await_def)

end
